theory Spec2Isabelle
  imports Complex_Main
begin

section \<open>The psychrometric formulas of psychro.py\<close>

text \<open>
  The module consists of five closed-form correlations. Python's \<open>float\<close> is modelled
  by \<^typ>\<open>real\<close>: the arithmetic is exact, so rounding, overflow and underflow of the
  binary64 format are outside the model. The arguments are taken to be Python scalars.
  Where the rounding itself decides a property (the strict orders of \<open>pvs\<close> and
  \<open>v\<close>), a second model of the same two functions rounds every operation to
  binary64; it is given after the exact one.

  What the code does outside the domain of a formula is written out, since HOL's total
  functions would hide it (\<open>x / 0 = 0\<close>, \<open>ln (- x) = ln x\<close> in HOL):
  \<^item> a division of two Python floats by zero raises \<open>ZeroDivisionError\<close>;
  \<^item> a division by zero on a value that came out of \<open>np.exp\<close> (a numpy scalar) only
    warns and returns an infinity or nan; \<open>np.log\<close> of a negative number returns nan;
    a negative Python float raised to a fractional power returns a complex number.
    In these cases no exception is raised and the value returned is not a finite real
    number; it stays so through the arithmetic that follows.
\<close>

datatype failure = ZeroDivisionError | NotFiniteReal

subsection \<open>Constants\<close>

definition Mv :: real where
  "Mv = 18.015286"

definition Mda :: real where
  "Mda = 28.966"

definition R :: real where
  "R = 8314.46261815324"

subsection \<open>Atmospheric pressure\<close>

text \<open>\<^verbatim>\<open>return 101325 * (1 - 2.25577e-5 * Z)**5.2559\<close>\<close>

definition p :: "real \<Rightarrow> failure + real" where
  "p Z = (let base = 1 - 2.25577 / 10 ^ 5 * Z
          in if base < 0 then Inl NotFiniteReal
             else Inr (101325 * base powr 5.2559))"

subsection \<open>Saturation vapor pressure\<close>

text \<open>
  \<open>C8 / T\<close> divides two Python floats and is evaluated first, so \<open>T = 0\<close> raises;
  for \<open>T < 0\<close> the logarithm is nan.
\<close>

definition pvs :: "real \<Rightarrow> failure + real" where
  "pvs t = (let T = t + 273.15;
                C8 = - 5.8002206 * 10 ^ 3;
                C9 = 1.3914993;
                C10 = - 4.8640239 / 10 ^ 2;
                C11 = 4.1764768 / 10 ^ 5;
                C12 = - 1.4452093 / 10 ^ 8;
                C13 = 6.5459673
            in if T = 0 then Inl ZeroDivisionError
               else if T < 0 then Inl NotFiniteReal
               else Inr (exp (C8 / T + C9 + C10 * T + C11 * T ^ 2 + C12 * T ^ 3
                              + C13 * ln T)))"

subsection \<open>Humidity ratio\<close>

text \<open>
  \<^verbatim>\<open>w = Mv / Mda * phi * pvs(t) / (p(Z) - phi * pvs(t))\<close> with \<open>Z=0\<close> as the default
  of the third parameter: \<open>None\<close> is the omitted argument. Both calls of \<open>pvs(t)\<close>
  return the same value. The final division is one of numpy scalars.
\<close>

definition w :: "real \<Rightarrow> real \<Rightarrow> real option \<Rightarrow> failure + real" where
  "w t phi Zarg =
     (let Z = (case Zarg of None \<Rightarrow> 0 | Some z \<Rightarrow> z)
      in case pvs t of
           Inl e \<Rightarrow> Inl e
         | Inr s \<Rightarrow>
             (case p Z of
                Inl e \<Rightarrow> Inl e
              | Inr q \<Rightarrow>
                  if q - phi * s = 0 then Inl NotFiniteReal
                  else Inr (Mv / Mda * phi * s / (q - phi * s))))"

subsection \<open>Slope of the saturation curve\<close>

text \<open>
  \<open>a * ts / (ts + b)\<close> divides two Python floats; the division that gives \<open>wp\<close>
  has the numpy scalar \<open>es\<close> on both sides.
\<close>

definition wsp :: "real \<Rightarrow> real option \<Rightarrow> failure + real" where
  "wsp ts Zarg =
     (let Z = (case Zarg of None \<Rightarrow> 0 | Some z \<Rightarrow> z);
          a = 17.2693882;
          b = 273.16 - 35.86;
          C = 610.78
      in if ts + b = 0 then Inl ZeroDivisionError
         else
           (let es = C * exp (a * ts / (ts + b))
            in case p Z of
                 Inl e \<Rightarrow> Inl e
               | Inr q \<Rightarrow>
                   if (ts + b) ^ 2 * (q - es) ^ 2 = 0 then Inl NotFiniteReal
                   else Inr (Mv / Mda * a * b * q * es / ((ts + b) ^ 2 * (q - es) ^ 2))))"

subsection \<open>Specific volume\<close>

text \<open>
  \<^verbatim>\<open>v = R / Mv * (Mv / Mda + w) * (t + 273.15) / p(Z)\<close>: here every operand is a
  Python float, so a zero pressure raises.
\<close>

definition v :: "real \<Rightarrow> real \<Rightarrow> real option \<Rightarrow> failure + real" where
  "v t hr Zarg =
     (let Z = (case Zarg of None \<Rightarrow> 0 | Some z \<Rightarrow> z)
      in case p Z of
           Inl e \<Rightarrow> Inl e
         | Inr q \<Rightarrow>
             if q = 0 then Inl ZeroDivisionError
             else Inr (R / Mv * (Mv / Mda + hr) * (t + 273.15) / q))"

subsection \<open>The contract's formulas, as the specification words them\<close>

text \<open>
  The saturation pressure with the six constants as the specification lists them, and
  the specific volume with the gas constant as the specification gives it, for the
  pressure \<open>pZ\<close>. They are compared with \<open>pvs\<close> and \<open>v\<close> below.
\<close>

definition pvs_spec :: "real \<Rightarrow> real" where
  "pvs_spec t =
     (let T = t + 273.15
      in exp (- 5800.2206 / T + 1.3914993 + - 0.04864239 * T + 4.1764768 / 10 ^ 5 * T ^ 2
              + - 1.4452093 / 10 ^ 8 * T ^ 3 + 6.5459673 * ln T))"

definition v_spec :: "real \<Rightarrow> real \<Rightarrow> real \<Rightarrow> real" where
  "v_spec t hr pZ = (8314.462618153 / 18.015286) * (18.015286 / 28.966 + hr) * (t + 273.15) / pZ"

subsection \<open>The same arithmetic in binary64\<close>

text \<open>
  \<open>rnd\<close> rounds a real number to the nearest number with a significand of 53 bits,
  ties to the even significand, as every binary64 operation does; \<open>rhe\<close> is the
  rounding of the scaled significand to an integer. The exponent is not bounded, so
  overflow to an infinity and the subnormal numbers are outside the model.
\<close>

definition rhe :: "real \<Rightarrow> int" where
  "rhe m = (let f = \<lfloor>m\<rfloor>
            in if m - of_int f < 1 / 2 then f
               else if 1 / 2 < m - of_int f then f + 1
               else if even f then f else f + 1)"

definition rnd :: "real \<Rightarrow> real" where
  "rnd x = (if x = 0 then 0
            else (let e = \<lfloor>log 2 \<bar>x\<bar>\<rfloor> - 52
                  in sgn x * of_int (rhe (\<bar>x\<bar> / 2 powr of_int e)) * 2 powr of_int e))"

text \<open>
  A decimal literal of the source denotes the binary64 number nearest to it.
\<close>

definition Mv64 :: real where
  "Mv64 = rnd 18.015286"

definition Mda64 :: real where
  "Mda64 = rnd 28.966"

definition R64 :: real where
  "R64 = rnd 8314.46261815324"

text \<open>
  The functions of the module with every operation rounded, in the order Python evaluates
  them. The integers 1 and 101325 are exact. The library functions (\<open>**\<close> on floats,
  \<open>np.exp\<close>, \<open>np.log\<close>) are taken to return the correctly rounded result; the
  theorems below use of them only that they are functions and that \<open>1.0 ** y\<close> is
  \<open>1.0\<close>.
\<close>

definition p64 :: "real \<Rightarrow> failure + real" where
  "p64 Z = (let base = rnd (1 - rnd (rnd (2.25577 / 10 ^ 5) * Z))
            in if base < 0 then Inl NotFiniteReal
               else Inr (rnd (101325 * rnd (base powr rnd 5.2559))))"


definition v64 :: "real \<Rightarrow> real \<Rightarrow> real option \<Rightarrow> failure + real" where
  "v64 t hr Zarg =
     (let Z = (case Zarg of None \<Rightarrow> 0 | Some z \<Rightarrow> z)
      in case p64 Z of
           Inl e \<Rightarrow> Inl e
         | Inr q \<Rightarrow>
             if q = 0 then Inl ZeroDivisionError
             else Inr (rnd (rnd (rnd (rnd (R64 / Mv64) * rnd (rnd (Mv64 / Mda64) + hr))
                                 * rnd (t + rnd 273.15))
                            / q)))"

section \<open>Basic facts\<close>

lemma p_Inr_iff: "p Z = Inr q \<longleftrightarrow>
    0 \<le> 1 - 2.25577 / 10 ^ 5 * Z \<and> q = 101325 * (1 - 2.25577 / 10 ^ 5 * Z) powr 5.2559"
  by (auto simp: p_def Let_def)

lemma p_nonneg: "p Z = Inr q \<Longrightarrow> 0 \<le> q"
  by (simp add: p_Inr_iff)

lemma p_sea_level: "p 0 = Inr 101325"
  by (simp add: p_def)

lemma pvs_pos: "pvs t = Inr s \<Longrightarrow> 0 < s"
  by (auto simp: pvs_def Let_def split: if_splits)

lemma pvs_Inr_iff: "pvs t = Inr s \<longleftrightarrow>
    0 < t + 273.15 \<and>
    s = exp (- 5800.2206 / (t + 273.15) + 1.3914993 + - 0.048640239 * (t + 273.15)
             + 0.000041764768 * (t + 273.15) ^ 2 + - 0.000000014452093 * (t + 273.15) ^ 3
             + 6.5459673 * ln (t + 273.15))"
  by (auto simp: pvs_def Let_def)

section \<open>Numeric bounds on the exponential and the logarithm\<close>

lemma exp_one_upper: "exp (1::real) \<le> 2.8"
proof -
  have "exp (1/16 :: real) \<le> 1 + 1/16 + (1/16)\<^sup>2"
    by (rule exp_bound) simp_all
  then have "exp (1/16 :: real) ^ 16 \<le> (1 + 1/16 + (1/16)\<^sup>2) ^ 16"
    by (intro power_mono) simp_all
  moreover have "exp (1/16 :: real) ^ 16 = exp 1"
    by (simp add: exp_of_nat_mult [symmetric])
  moreover have "(1 + 1/16 + (1/16)\<^sup>2 :: real) ^ 16 \<le> 2.8"
    by (simp add: power_divide power2_eq_square)
  ultimately show ?thesis by linarith
qed

lemma exp_one_lower: "2.67 \<le> exp (1::real)"
proof -
  have "(1 + 1 / of_nat 32) ^ 32 \<le> exp (1::real)"
    by (rule exp_ge_one_plus_x_over_n_power_n) simp_all
  moreover have "(2.67::real) \<le> (1 + 1 / of_nat 32) ^ 32"
    by (simp add: power_divide)
  ultimately show ?thesis by linarith
qed

lemma exp_nat_upper: "exp (real n) \<le> 2.8 ^ n"
proof -
  have "exp (real n) = exp 1 ^ n"
    by (simp add: exp_of_nat_mult [symmetric])
  also have "\<dots> \<le> 2.8 ^ n"
    by (intro power_mono exp_one_upper) simp
  finally show ?thesis .
qed

lemma exp_nat_lower: "2.67 ^ n \<le> exp (real n)"
proof -
  have "2.67 ^ n \<le> exp (1::real) ^ n"
    by (intro power_mono exp_one_lower) simp
  also have "\<dots> = exp (real n)"
    by (simp add: exp_of_nat_mult [symmetric])
  finally show ?thesis .
qed

lemma ln_473_lower: "5.9 \<le> ln (473.15::real)"
proof -
  have "exp (5.9::real) ^ 10 = exp (real 59)"
    by (simp add: exp_of_nat_mult [symmetric])
  also have "\<dots> \<le> 2.8 ^ 59"
    by (rule exp_nat_upper)
  also have "\<dots> \<le> (473.15::real) ^ 10"
    by (simp add: power_divide)
  finally have le: "exp (5.9::real) ^ 10 \<le> 473.15 ^ 10" .
  have "exp (5.9::real) \<le> 473.15"
  proof (rule ccontr)
    assume "\<not> exp (5.9::real) \<le> 473.15"
    then have "(473.15::real) ^ 10 < exp 5.9 ^ 10"
      by (intro power_strict_mono) simp_all
    with le show False by linarith
  qed
  then show ?thesis
    by (subst ln_ge_iff) simp_all
qed

lemma ln_293_upper: "ln (293.15::real) \<le> 6"
proof -
  have "(293.15::real) \<le> 2.67 ^ 6" by (simp add: power_divide)
  also have "\<dots> \<le> exp (real 6)" by (rule exp_nat_lower)
  finally have "ln (293.15::real) \<le> ln (exp (real 6))"
    by (subst ln_le_cancel_iff) simp_all
  then show ?thesis by simp
qed

section \<open>The saturation pressure at two temperatures\<close>

lemma pvs_200: "\<exists>s. pvs 200 = Inr s \<and> 101325 < s"
proof -
  let ?E = "- 5800.2206 / 473.15 + 1.3914993 + - 0.048640239 * 473.15
             + 0.000041764768 * 473.15 ^ 2 + - 0.000000014452093 * 473.15 ^ 3
             + 6.5459673 * ln (473.15 :: real)"
  have "(12::real) \<le> - 5800.2206 / 473.15 + 1.3914993 + - 0.048640239 * 473.15
             + 0.000041764768 * 473.15 ^ 2 + - 0.000000014452093 * 473.15 ^ 3
             + 6.5459673 * 5.9"
    by (simp add: power_divide)
  also have "\<dots> \<le> ?E"
    using ln_473_lower by simp
  finally have "exp (real 12) \<le> exp ?E" by simp
  moreover have "(101325::real) < 2.67 ^ 12" by (simp add: power_divide)
  moreover have "(2.67::real) ^ 12 \<le> exp (real 12)" by (rule exp_nat_lower)
  ultimately have "101325 < exp ?E" by linarith
  moreover have "pvs 200 = Inr (exp ?E)"
    by (simp add: pvs_Inr_iff)
  ultimately show ?thesis by blast
qed

lemma pvs_20: "\<exists>s. pvs 20 = Inr s \<and> s < 101325"
proof -
  let ?E = "- 5800.2206 / 293.15 + 1.3914993 + - 0.048640239 * 293.15
             + 0.000041764768 * 293.15 ^ 2 + - 0.000000014452093 * 293.15 ^ 3
             + 6.5459673 * ln (293.15 :: real)"
  have "?E \<le> - 5800.2206 / 293.15 + 1.3914993 + - 0.048640239 * 293.15
             + 0.000041764768 * 293.15 ^ 2 + - 0.000000014452093 * 293.15 ^ 3
             + 6.5459673 * 6"
    using ln_293_upper by simp
  also have "\<dots> \<le> (10::real)"
    by (simp add: power_divide)
  finally have "exp ?E \<le> exp (real 10)" by simp
  moreover have "(2.8::real) ^ 10 < 101325" by (simp add: power_divide)
  moreover have "exp (real 10) \<le> 2.8 ^ 10" by (rule exp_nat_upper)
  ultimately have "exp ?E < 101325" by linarith
  moreover have "pvs 20 = Inr (exp ?E)"
    by (simp add: pvs_Inr_iff)
  ultimately show ?thesis by blast
qed

section \<open>Auxiliary facts about the formulas\<close>

text \<open>
  The Tetens pressure \<open>es\<close> of \<open>wsp\<close> stays below the sea-level pressure on the
  range of the chart.
\<close>

lemma es_bounds:
  fixes ts :: real
  assumes "- 10 \<le> ts" and "ts \<le> 50"
  shows "0 < 610.78 * exp (17.2693882 * ts / (ts + 237.3))"
    and "610.78 * exp (17.2693882 * ts / (ts + 237.3)) < 101325"
proof -
  show "0 < 610.78 * exp (17.2693882 * ts / (ts + 237.3))" by simp
  have d: "0 < ts + 237.3" using assms(1) by simp
  have "17.2693882 * ts \<le> 4 * (ts + 237.3)" using assms(2) by simp
  then have "17.2693882 * ts / (ts + 237.3) \<le> real 4"
    using d by (simp add: pos_divide_le_eq)
  then have "exp (17.2693882 * ts / (ts + 237.3)) \<le> exp (real 4)"
    by (simp only: exp_le_cancel_iff)
  also have "\<dots> \<le> 2.8 ^ 4" by (rule exp_nat_upper)
  finally have "610.78 * exp (17.2693882 * ts / (ts + 237.3)) \<le> 610.78 * 2.8 ^ 4"
    by simp
  also have "\<dots> < (101325::real)" by (simp add: power_divide)
  finally show "610.78 * exp (17.2693882 * ts / (ts + 237.3)) < 101325" .
qed

text \<open>
  The humidity ratio where the pressures are defined, and past the point where the
  vapor pressure \<open>phi * pvs(t)\<close> exceeds the atmospheric pressure.
\<close>

lemma w_Some:
  assumes "pvs t = Inr s" and "p Z = Inr q" and "q \<noteq> phi * s"
  shows "w t phi (Some Z) = Inr (Mv / Mda * phi * s / (q - phi * s))"
  using assms by (simp add: w_def)

lemma w_above_pressure:
  assumes "pvs t = Inr s" and "p Z = Inr q" and "q < phi * s"
  shows "w t phi (Some Z) = Inr (Mv / Mda * phi * s / (q - phi * s))
         \<and> Mv / Mda * phi * s / (q - phi * s) < 0"
proof -
  have "0 \<le> q" using assms(2) by (rule p_nonneg)
  then have "0 < Mv / Mda * (phi * s)" using assms(3) by (simp add: Mv_def Mda_def)
  moreover have "q - phi * s < 0" using assms(3) by simp
  ultimately have "Mv / Mda * (phi * s) / (q - phi * s) < 0"
    by (rule divide_pos_neg)
  then have "Mv / Mda * phi * s / (q - phi * s) < 0"
    by (simp only: mult.assoc)
  moreover have "q \<noteq> phi * s" using assms(3) by simp
  ultimately show ?thesis using w_Some [OF assms(1,2)] by blast
qed

text \<open>
  At \<open>phi * pvs(t) = p(Z)\<close> the division is by zero: numpy warns and returns an
  infinity (nan for a zero numerator); no exception is raised.
\<close>

lemma w_at_pressure:
  assumes "pvs t = Inr s" and "p Z = Inr q" and "q = phi * s"
  shows "w t phi (Some Z) = Inl NotFiniteReal"
  using assms by (simp add: w_def)

text \<open>
  Saturated air at 200 degrees Celsius and sea level: the saturation pressure is above
  one atmosphere and the humidity ratio that comes back is negative.
\<close>

lemma w_200_saturated: "\<not> isl (w 200 1 (Some 0)) \<and> projr (w 200 1 (Some 0)) < 0"
proof -
  obtain s where s: "pvs 200 = Inr s" "101325 < s"
    using pvs_200 by blast
  have "101325 < 1 * s" using s(2) by simp
  from w_above_pressure [OF s(1) p_sea_level this] show ?thesis by simp
qed




section \<open>Rounding to binary64\<close>

text \<open>
  Rounding to an integer: the result is a neighbour of the argument, an integer is kept,
  and the order is preserved.
\<close>

lemma rhe_floor: "\<lfloor>m\<rfloor> \<le> rhe m \<and> rhe m \<le> \<lfloor>m\<rfloor> + 1"
  by (simp add: rhe_def Let_def)

lemma rhe_near: "\<bar>of_int (rhe m) - m\<bar> \<le> 1 / 2"
  unfolding rhe_def Let_def by (auto; linarith)

lemma rhe_of_int_add:
  assumes "0 \<le> d" and "d < 1 / 2"
  shows "rhe (of_int k + d) = k"
proof -
  have "\<lfloor>of_int k + d\<rfloor> = k" using assms by (intro floor_unique) simp_all
  then show ?thesis using assms by (simp add: rhe_def)
qed

lemma rhe_of_int: "rhe (of_int k) = k"
  using rhe_of_int_add [of 0 k] by simp

lemma rhe_mono:
  assumes "m1 \<le> m2"
  shows "rhe m1 \<le> rhe m2"
proof (cases "\<lfloor>m1\<rfloor> = \<lfloor>m2\<rfloor>")
  case True
  then show ?thesis using assms by (auto simp: rhe_def Let_def)
next
  case False
  have "\<lfloor>m1\<rfloor> \<le> \<lfloor>m2\<rfloor>" using assms by (rule floor_mono)
  with False have "\<lfloor>m1\<rfloor> + 1 \<le> \<lfloor>m2\<rfloor>" by simp
  then show ?thesis using rhe_floor [of m1] rhe_floor [of m2] by linarith
qed

text \<open>
  Rounding within a binade: a number between \<open>2^n\<close> and \<open>2^(n+1)\<close> is rounded to
  a multiple of \<open>2^(n-52)\<close> at distance at most half of that.
\<close>

lemma rnd_zero: "rnd 0 = 0"
  by (simp add: rnd_def)

lemma rnd_minus: "rnd (- x) = - rnd x"
  by (simp add: rnd_def Let_def)

lemma rnd_binade:
  assumes "2 powr of_int n \<le> x" and "x < 2 powr of_int (n + 1)"
  shows "rnd x = of_int (rhe (x / 2 powr of_int (n - 52))) * 2 powr of_int (n - 52)"
proof -
  have pos: "0 < x" using assms(1) by (rule less_le_trans [rotated]) simp
  have "\<lfloor>log 2 x\<rfloor> = n"
    using pos assms by (subst floor_log_eq_powr_iff) simp_all
  then show ?thesis using pos by (simp add: rnd_def)
qed

lemma binade_mantissa:
  fixes x :: real
  assumes "2 powr of_int n \<le> x" and "x < 2 powr of_int (n + 1)"
  shows "2 ^ 52 \<le> x / 2 powr of_int (n - 52)" and "x / 2 powr of_int (n - 52) < 2 ^ 53"
proof -
  have a: "(2::real) powr of_int n = 2 ^ 52 * 2 powr of_int (n - 52)"
    by (simp add: powr_diff)
  have b: "(2::real) powr of_int (n + 1) = 2 ^ 53 * 2 powr of_int (n - 52)"
    by (simp add: powr_diff powr_add)
  show "2 ^ 52 \<le> x / 2 powr of_int (n - 52)"
    using assms(1) unfolding a by (simp add: pos_le_divide_eq)
  show "x / 2 powr of_int (n - 52) < 2 ^ 53"
    using assms(2) unfolding b by (simp add: pos_divide_less_eq)
qed

lemma rnd_grid:
  assumes "2 powr of_int n \<le> x" and "x < 2 powr of_int (n + 1)"
  shows "\<exists>k. 2 ^ 52 \<le> k \<and> k \<le> 2 ^ 53 \<and> rnd x = of_int k * 2 powr of_int (n - 52)
             \<and> \<bar>of_int k - x / 2 powr of_int (n - 52)\<bar> \<le> 1 / 2"
proof -
  let ?m = "x / 2 powr of_int (n - 52)"
  have m: "2 ^ 52 \<le> ?m" "?m < 2 ^ 53" using assms by (rule binade_mantissa)+
  have "rhe (of_int (2 ^ 52)) \<le> rhe ?m" using m(1) by (intro rhe_mono) simp
  then have lo: "2 ^ 52 \<le> rhe ?m" by (simp only: rhe_of_int)
  have "\<lfloor>?m\<rfloor> < 2 ^ 53" using m(2) by (simp add: floor_less_iff)
  then have hi: "rhe ?m \<le> 2 ^ 53" using rhe_floor [of ?m] by linarith
  show ?thesis
    using lo hi rnd_binade [OF assms] rhe_near [of ?m] by blast
qed

lemma int_lt_2p53:
  assumes "k < 2 ^ 53"
  shows "of_int k \<le> (2::real) ^ 53 - 1"
proof -
  have "k \<le> 2 ^ 53 - 1" using assms by simp
  then have "real_of_int k \<le> real_of_int (2 ^ 53 - 1)" by (simp only: of_int_le_iff)
  then show ?thesis by simp
qed

lemma int_le_2p53:
  assumes "k \<le> 2 ^ 53"
  shows "of_int k \<le> (2::real) ^ 53"
proof -
  have "real_of_int k \<le> real_of_int (2 ^ 53)" using assms by (simp only: of_int_le_iff)
  then show ?thesis by simp
qed

lemma int_ge_2p52:
  assumes "2 ^ 52 \<le> k"
  shows "(2::real) ^ 52 \<le> of_int k"
proof -
  have "real_of_int (2 ^ 52) \<le> real_of_int k" using assms by (simp only: of_int_le_iff)
  then show ?thesis by simp
qed

lemma rnd_exact:
  assumes "2 ^ 52 \<le> k" and "k < 2 ^ 53" and "0 \<le> d" and "d < 1 / 2"
  shows "rnd ((of_int k + d) * 2 powr of_int e) = of_int k * 2 powr of_int e"
proof -
  let ?x = "(of_int k + d) * 2 powr of_int e"
  have s: "(2::real) powr of_int (e + 52 - 52) = 2 powr of_int e" by simp
  have lo: "(2::real) ^ 52 \<le> of_int k + d"
    using int_ge_2p52 [OF assms(1)] assms(3) by linarith
  have "of_int k \<le> (2::real) ^ 53 - 1"
    using assms(2) by (rule int_lt_2p53)
  then have hi: "of_int k + d < (2::real) ^ 53" using assms(4) by linarith
  have a: "2 powr of_int (e + 52) \<le> ?x"
    using lo by (simp add: powr_add)
  have b: "?x < 2 powr of_int (e + 52 + 1)"
    using hi by (simp add: powr_add)
  have "rnd ?x = of_int (rhe (?x / 2 powr of_int (e + 52 - 52))) * 2 powr of_int (e + 52 - 52)"
    using a b by (rule rnd_binade)
  also have "?x / 2 powr of_int (e + 52 - 52) = of_int k + d"
    unfolding s by simp
  finally show ?thesis
    unfolding s using assms(3,4) by (simp add: rhe_of_int_add)
qed

lemma rnd_range:
  assumes "2 powr of_int n \<le> x" and "x < 2 powr of_int (n + 1)"
  shows "2 powr of_int n \<le> rnd x" and "rnd x \<le> 2 powr of_int (n + 1)"
proof -
  obtain k where k: "2 ^ 52 \<le> k" "k \<le> 2 ^ 53" "rnd x = of_int k * 2 powr of_int (n - 52)"
    using rnd_grid [OF assms] by blast
  have a: "(2::real) powr of_int n = 2 ^ 52 * 2 powr of_int (n - 52)"
    by (simp add: powr_diff)
  have b: "(2::real) powr of_int (n + 1) = 2 ^ 53 * 2 powr of_int (n - 52)"
    by (simp add: powr_diff powr_add)
  have "(2::real) ^ 52 \<le> of_int k"
    using k(1) by (rule int_ge_2p52)
  then show "2 powr of_int n \<le> rnd x"
    unfolding a k(3) by (intro mult_right_mono) simp_all
  have "of_int k \<le> (2::real) ^ 53"
    using k(2) by (rule int_le_2p53)
  then show "rnd x \<le> 2 powr of_int (n + 1)"
    unfolding b k(3) by (intro mult_right_mono) simp_all
qed

lemma binade_of_pos:
  fixes x :: real
  assumes "0 < x"
  shows "2 powr of_int \<lfloor>log 2 x\<rfloor> \<le> x" and "x < 2 powr of_int (\<lfloor>log 2 x\<rfloor> + 1)"
  using assms floor_log_eq_powr_iff [of x 2 "\<lfloor>log 2 x\<rfloor>"] by simp_all

text \<open>
  Rounding preserves the order and the sign, and keeps the integers below \<open>2^53\<close>.
\<close>

lemma rnd_pos_mono:
  assumes "0 < x" and "x \<le> y"
  shows "rnd x \<le> rnd y"
proof -
  let ?n = "\<lfloor>log 2 x\<rfloor>" and ?n' = "\<lfloor>log 2 y\<rfloor>"
  have y: "0 < y" using assms by linarith
  note bx = binade_of_pos [OF assms(1)] and bb = binade_of_pos [OF y]
  have le: "?n \<le> ?n'"
    using assms y by (intro floor_mono) simp
  show ?thesis
  proof (cases "?n = ?n'")
    case True
    have "x / 2 powr of_int (?n - 52) \<le> y / 2 powr of_int (?n - 52)"
      using assms(2) by (simp add: divide_right_mono)
    then have "rhe (x / 2 powr of_int (?n - 52)) \<le> rhe (y / 2 powr of_int (?n - 52))"
      by (rule rhe_mono)
    then have "real_of_int (rhe (x / 2 powr of_int (?n - 52))) * 2 powr of_int (?n - 52)
             \<le> real_of_int (rhe (y / 2 powr of_int (?n - 52))) * 2 powr of_int (?n - 52)"
      by (intro mult_right_mono) simp_all
    then show ?thesis
      using rnd_binade [OF bx] rnd_binade [OF bb] True by simp
  next
    case False
    with le have "?n + 1 \<le> ?n'" by simp
    then have "(2::real) powr of_int (?n + 1) \<le> 2 powr of_int ?n'"
      by (intro powr_mono) simp_all
    then show ?thesis
      using rnd_range(2) [OF bx] rnd_range(1) [OF bb] by linarith
  qed
qed

lemma rnd_pos:
  assumes "0 < x"
  shows "0 < rnd x"
proof -
  have "0 < (2::real) powr of_int \<lfloor>log 2 x\<rfloor>" by simp
  then show ?thesis using rnd_range(1) [OF binade_of_pos [OF assms]] by linarith
qed

lemma rnd_nonneg: "0 \<le> x \<Longrightarrow> 0 \<le> rnd x"
  using rnd_pos [of x] by (cases "x = 0") (simp_all add: rnd_zero less_eq_real_def)

lemma rnd_mono:
  assumes "x \<le> y"
  shows "rnd x \<le> rnd y"
proof -
  consider "0 < x" | "x \<le> 0" "0 \<le> y" | "y < 0" by linarith
  then show ?thesis
  proof cases
    case 1
    then show ?thesis using assms by (rule rnd_pos_mono)
  next
    case 2
    have "0 \<le> rnd (- x)" using 2(1) by (intro rnd_nonneg) simp
    then have "rnd x \<le> 0" by (simp add: rnd_minus)
    moreover have "0 \<le> rnd y" using 2(2) by (rule rnd_nonneg)
    ultimately show ?thesis by linarith
  next
    case 3
    then have "0 < - y" and "- y \<le> - x" using assms by simp_all
    then have "rnd (- y) \<le> rnd (- x)" by (rule rnd_pos_mono)
    then show ?thesis by (simp add: rnd_minus)
  qed
qed

lemma rnd_of_int:
  assumes "0 < j" and "j < 2 ^ 53"
  shows "rnd (of_int j) = of_int j"
proof -
  let ?n = "\<lfloor>log 2 (real_of_int j)\<rfloor>"
  have pos: "0 < real_of_int j" using assms(1) by simp
  note b = binade_of_pos [OF pos]
  have "1 \<le> real_of_int j" using assms(1) by simp
  then have "0 \<le> log 2 (real_of_int j)" by simp
  then have n0: "0 \<le> ?n" by simp
  have "real_of_int j < 2 ^ 53" using int_lt_2p53 [OF assms(2)] by linarith
  then have "real_of_int j < 2 powr 53" by simp
  then have "log 2 (real_of_int j) < 53" using pos by (simp add: log_less_iff)
  then have n52: "?n \<le> 52" by (simp add: floor_le_iff)
  define i where "i = nat (52 - ?n)"
  have i: "of_int (52 - ?n) = real i" using n52 by (simp add: i_def)
  have "(2::real) powr of_int (?n - 52) = 1 / 2 powr of_int (52 - ?n)"
    by (simp add: powr_diff)
  also have "\<dots> = 1 / 2 ^ i" unfolding i by (simp add: powr_realpow)
  finally have sc: "(2::real) powr of_int (?n - 52) = 1 / 2 ^ i" .
  have "rnd (of_int j) = of_int (rhe (of_int j / 2 powr of_int (?n - 52))) * 2 powr of_int (?n - 52)"
    using b by (rule rnd_binade)
  also have "of_int j / 2 powr of_int (?n - 52) = real_of_int (j * 2 ^ i)"
    unfolding sc by simp
  also have "rhe (real_of_int (j * 2 ^ i)) = j * 2 ^ i" by (rule rhe_of_int)
  finally show ?thesis unfolding sc by simp
qed

text \<open>
  The sea-level pressure, the literal \<open>273.15\<close>, and two temperatures one unit in
  the last place apart whose absolute temperatures are the same binary64 number.
\<close>

lemma p64_sea_level: "p64 0 = Inr 101325"
proof -
  have one: "rnd 1 = 1" using rnd_of_int [of 1] by simp
  have "rnd 101325 = 101325" using rnd_of_int [of 101325] by simp
  then show ?thesis by (simp add: p64_def rnd_zero one)
qed

lemma rnd_273:
  obtains k where "2 ^ 52 \<le> k" and "rnd 273.15 = of_int k / 2 ^ 44"
    and "real_of_int k \<le> 273.15 * 2 ^ 44 + 1 / 2" and "273.15 * 2 ^ 44 - 1 / 2 \<le> real_of_int k"
proof -
  have lo: "(2::real) powr of_int 8 \<le> 273.15" by simp
  have hi: "(273.15::real) < 2 powr of_int (8 + 1)" by simp
  from rnd_grid [OF lo hi] obtain k where k: "2 ^ 52 \<le> k"
      "rnd 273.15 = real_of_int k * 2 powr of_int (8 - 52)"
      "\<bar>real_of_int k - 273.15 / 2 powr of_int (8 - 52)\<bar> \<le> 1 / 2"
    by blast
  have sc: "(2::real) powr of_int (8 - 52) = 1 / 2 ^ 44"
    by (simp add: powr_neg_numeral)
  have m: "(273.15::real) / (1 / 2 ^ 44) = 273.15 * 2 ^ 44"
    by (simp only: divide_divide_eq_right mult_1)
  have e: "rnd 273.15 = of_int k / 2 ^ 44"
    unfolding k(2) sc by (simp only: times_divide_eq_right mult_1_right)
  have a: "\<bar>real_of_int k - 273.15 * 2 ^ 44\<bar> \<le> 1 / 2"
    using k(3) unfolding sc m .
  have u: "real_of_int k \<le> 273.15 * 2 ^ 44 + 1 / 2"
    using a by (simp only: abs_le_iff) linarith
  have l: "273.15 * 2 ^ 44 - 1 / 2 \<le> real_of_int k"
    using a by (simp only: abs_le_iff) linarith
  from k(1) e u l show thesis by (rule that)
qed


text \<open>
  A binary64 temperature above \<open>-273.15\<close> has a computed absolute temperature that
  is not negative.
\<close>

lemma T64_nonneg:
  assumes "rnd t = t" and "- 273.15 < t"
  shows "0 \<le> t + rnd 273.15"
proof -
  obtain k0 where k0: "2 ^ 52 \<le> k0" "rnd 273.15 = real_of_int k0 / 2 ^ 44"
      "273.15 * 2 ^ 44 - 1 / 2 \<le> real_of_int k0"
    using rnd_273 by metis
  have "(2::real) ^ 52 / 2 ^ 44 \<le> real_of_int k0 / 2 ^ 44"
    using int_ge_2p52 [OF k0(1)] by (intro divide_right_mono) simp_all
  then have c: "256 \<le> rnd 273.15" unfolding k0(2) by simp
  show ?thesis
  proof (cases "- 256 \<le> t")
    case True
    then show ?thesis using c by linarith
  next
    case False
    then have lo: "2 powr of_int 8 \<le> - t" by simp
    have hi: "- t < 2 powr of_int (8 + 1)" using assms(2) by simp
    from rnd_grid [OF lo hi] obtain k where
      k: "rnd (- t) = real_of_int k * 2 powr of_int (8 - 52)"
      by blast
    have sc: "(2::real) powr of_int (8 - 52) = 1 / 2 ^ 44"
      by (simp add: powr_neg_numeral)
    have t: "- t = real_of_int k / 2 ^ 44"
      using k assms(1) unfolding sc by (simp add: rnd_minus)
    have "real_of_int k / 2 ^ 44 < 273.15" using assms(2) unfolding t [symmetric] by simp
    then have "real_of_int k < 273.15 * 2 ^ 44" by (simp add: pos_divide_less_eq)
    then have "real_of_int k < real_of_int k0 + 1 / 2" using k0(3) by linarith
    then have "real_of_int k < real_of_int (k0 + 1)" by simp
    then have "k < k0 + 1" by (simp only: of_int_less_iff)
    then have "real_of_int k \<le> real_of_int k0" by simp
    then have "real_of_int k / 2 ^ 44 \<le> real_of_int k0 / 2 ^ 44"
      by (intro divide_right_mono) simp_all
    then have "- t \<le> rnd 273.15" unfolding t k0(2) .
    then show ?thesis by linarith
  qed
qed

text \<open>
  The ratio \<open>Mv/Mda\<close> lies in the binade of \<open>1/2\<close>, where a humidity ratio of
  \<open>2^-70\<close> is absorbed by the addition.
\<close>

lemma Mv64_bounds: "18 \<le> Mv64" "Mv64 \<le> 19"
proof -
  have a: "rnd 18 = 18" using rnd_of_int [of 18] by simp
  have b: "rnd 19 = 19" using rnd_of_int [of 19] by simp
  have "rnd 18 \<le> rnd 18.015286" by (rule rnd_mono) simp
  then show "18 \<le> Mv64" by (simp add: Mv64_def a)
  have "rnd 18.015286 \<le> rnd 19" by (rule rnd_mono) simp
  then show "Mv64 \<le> 19" by (simp add: Mv64_def b)
qed

lemma Mda64_bounds: "28 \<le> Mda64" "Mda64 \<le> 29"
proof -
  have a: "rnd 28 = 28" using rnd_of_int [of 28] by simp
  have b: "rnd 29 = 29" using rnd_of_int [of 29] by simp
  have "rnd 28 \<le> rnd 28.966" by (rule rnd_mono) simp
  then show "28 \<le> Mda64" by (simp add: Mda64_def a)
  have "rnd 28.966 \<le> rnd 29" by (rule rnd_mono) simp
  then show "Mda64 \<le> 29" by (simp add: Mda64_def b)
qed

lemma ratio64_bounds: "18 / 29 \<le> Mv64 / Mda64" "Mv64 / Mda64 \<le> 19 / 28"
proof -
  show "18 / 29 \<le> Mv64 / Mda64"
    using Mv64_bounds(1) Mda64_bounds by (intro frac_le) simp_all
  show "Mv64 / Mda64 \<le> 19 / 28"
    using Mv64_bounds Mda64_bounds(1) by (intro frac_le) simp_all
qed

lemma ratio64_grid:
  obtains k where "2 ^ 52 \<le> k" and "k < 2 ^ 53"
    and "rnd (Mv64 / Mda64) = real_of_int k * 2 powr of_int (- 53)"
proof -
  have lo: "2 powr of_int (- 1) \<le> Mv64 / Mda64"
    using ratio64_bounds(1) by (simp add: powr_neg_one)
  have one: "(2::real) powr of_int (- 1 + 1) = 1" by simp
  have "(19::real) / 28 < 1" by simp
  with ratio64_bounds(2) have "Mv64 / Mda64 < 1" by (rule le_less_trans)
  then have hi: "Mv64 / Mda64 < 2 powr of_int (- 1 + 1)"
    by (simp only: one)
  from rnd_grid [OF lo hi] obtain k where k: "2 ^ 52 \<le> k"
      "rnd (Mv64 / Mda64) = real_of_int k * 2 powr of_int (- 1 - 52)"
      "\<bar>real_of_int k - Mv64 / Mda64 / 2 powr of_int (- 1 - 52)\<bar> \<le> 1 / 2"
    by blast
  have sc: "(2::real) powr of_int (- 1 - 52) = 1 / 2 ^ 53"
    by (simp add: powr_neg_numeral)
  have "Mv64 / Mda64 / (1 / 2 ^ 53) = Mv64 / Mda64 * 2 ^ 53"
    by (simp only: divide_divide_eq_right mult_1)
  also have "\<dots> \<le> 19 / 28 * 2 ^ 53"
    using ratio64_bounds(2) by (intro mult_right_mono) simp_all
  finally have "Mv64 / Mda64 / (1 / 2 ^ 53) \<le> 19 / 28 * 2 ^ 53" .
  moreover have "real_of_int k \<le> Mv64 / Mda64 / (1 / 2 ^ 53) + 1 / 2"
    using k(3) unfolding sc by (simp only: abs_le_iff) linarith
  ultimately have "real_of_int k \<le> 19 / 28 * 2 ^ 53 + 1 / 2" by linarith
  also have "\<dots> < real_of_int (2 ^ 53)" by simp
  finally have "k < 2 ^ 53" by (simp only: of_int_less_iff)
  moreover have "rnd (Mv64 / Mda64) = real_of_int k * 2 powr of_int (- 53)"
    using k(2) by simp
  ultimately show thesis using k(1) that by blast
qed

lemma sum64_tie: "rnd (rnd (Mv64 / Mda64) + 0) = rnd (rnd (Mv64 / Mda64) + 1 / 2 ^ 70)"
proof -
  obtain k where k: "2 ^ 52 \<le> k" "k < 2 ^ 53"
      "rnd (Mv64 / Mda64) = real_of_int k * 2 powr of_int (- 53)"
    by (rule ratio64_grid)
  have sc: "(2::real) powr of_int (- 53) = 1 / 2 ^ 53"
    by (simp add: powr_neg_numeral)
  have a: "rnd (Mv64 / Mda64) + 0 = (real_of_int k + 0) * 2 powr of_int (- 53)"
    unfolding k(3) by simp
  have b: "rnd (Mv64 / Mda64) + 1 / 2 ^ 70 = (real_of_int k + 1 / 2 ^ 17) * 2 powr of_int (- 53)"
    unfolding k(3) sc by (simp add: algebra_simps)
  have ra: "rnd (rnd (Mv64 / Mda64) + 0) = real_of_int k * 2 powr of_int (- 53)"
    unfolding a by (rule rnd_exact [OF k(1,2)]) simp_all
  have rb: "rnd (rnd (Mv64 / Mda64) + 1 / 2 ^ 70) = real_of_int k * 2 powr of_int (- 53)"
    unfolding b by (rule rnd_exact [OF k(1,2)]) simp_all
  show ?thesis using ra rb by simp
qed

section \<open>Humidity ratio: the formula and its domain\<close>

text \<open>
  Claim C1. Where the saturation pressure \<open>pvs(t)\<close> and the atmospheric pressure
  \<open>p(Z)\<close> are defined and the denominator is not zero, \<open>w(t, phi, Z)\<close> returns
  \<open>(Mv/Mda) * phi * pvs(t) / (p(Z) - phi * pvs(t))\<close> with \<open>Mv = 18.015286\<close> and
  \<open>Mda = 28.966\<close>; a call without the altitude is the call with \<open>Z = 0\<close>.
\<close>

theorem w_formula:
  assumes "pvs t = Inr s" and "p Z = Inr q" and "q \<noteq> phi * s"
  shows "w t phi (Some Z) = Inr ((18.015286 / 28.966) * phi * s / (q - phi * s))
         \<and> w t phi None = w t phi (Some 0)"
  using assms by (simp add: w_def Mv_def Mda_def)

text \<open>
  The formula at 20 degrees Celsius, half saturation, sea level.
\<close>

theorem w_formula_witness:
  "\<exists>s. pvs 20 = Inr s \<and> p 0 = Inr 101325 \<and> 101325 \<noteq> 0.5 * s
       \<and> w 20 0.5 (Some 0) = Inr ((18.015286 / 28.966) * 0.5 * s / (101325 - 0.5 * s))
       \<and> w 20 0.5 None = w 20 0.5 (Some 0)"
proof -
  obtain s where s: "pvs 20 = Inr s" "s < 101325"
    using pvs_20 by blast
  have pos: "0 < s" using s(1) by (rule pvs_pos)
  have ne: "(101325::real) \<noteq> 0.5 * s" using s(2) pos by simp
  show ?thesis
    using w_formula [OF s(1) p_sea_level ne] s(1) p_sea_level ne by blast
qed

text \<open>
  Claim C2 as the specification states it asks for a domain error whenever
  \<open>phi * pvs(t) \<ge> p(Z)\<close>. The code has no such check: for saturated air at
  200 degrees Celsius and sea level it returns a negative number.
\<close>

theorem w_no_domain_error_counterexample:
  "\<not> isl (pvs 200) \<and> p 0 = Inr 101325 \<and> 101325 \<le> 1 * projr (pvs 200)
   \<and> \<not> isl (w 200 1 (Some 0)) \<and> projr (w 200 1 (Some 0)) < 0"
proof -
  obtain s where s: "pvs 200 = Inr s" "101325 < s"
    using pvs_200 by blast
  then show ?thesis using w_200_saturated p_sea_level by simp
qed

text \<open>
  Claim C2, amended. For every input with \<open>phi * pvs(t) > p(Z)\<close>, both pressures
  being defined, \<open>w\<close> raises nothing and returns the value of its formula, which is
  negative.
\<close>

theorem w_negative_beyond_pressure:
  assumes "pvs t = Inr s" and "p Z = Inr q" and "q < phi * s"
  shows "w t phi (Some Z) = Inr ((18.015286 / 28.966) * phi * s / (q - phi * s))
         \<and> (18.015286 / 28.966) * phi * s / (q - phi * s) < 0"
  using w_above_pressure [OF assms] by (simp add: Mv_def Mda_def)

text \<open>
  Saturated air at 200 degrees Celsius, sea level.
\<close>

theorem w_negative_beyond_pressure_witness:
  "\<exists>s. pvs 200 = Inr s \<and> p 0 = Inr 101325 \<and> 101325 < 1 * s
       \<and> w 200 1 (Some 0) = Inr ((18.015286 / 28.966) * 1 * s / (101325 - 1 * s))
       \<and> (18.015286 / 28.966) * 1 * s / (101325 - 1 * s) < 0"
proof -
  obtain s where s: "pvs 200 = Inr s" "101325 < s"
    using pvs_200 by blast
  have h: "101325 < 1 * s" using s(2) by simp
  show ?thesis
    using w_negative_beyond_pressure [OF s(1) p_sea_level h] s(1) p_sea_level h by blast
qed

section \<open>Saturation vapor pressure: the constants\<close>

text \<open>
  Claim C3 as the specification states it, with \<open>C10 = -0.04864239\<close>, fails at the
  freezing point: the code has \<open>C10 = -0.048640239\<close>.
\<close>

theorem pvs_spec_counterexample: "pvs 0 \<noteq> Inr (pvs_spec 0)"
  by (simp add: pvs_Inr_iff pvs_spec_def Let_def)

text \<open>
  Claim C3, amended. For every temperature above absolute zero, \<open>pvs\<close> returns
  \<open>exp(C8/T + C9 + C10*T + C11*T^2 + C12*T^3 + C13*ln(T))\<close> at \<open>T = t + 273.15\<close>
  with \<open>C8 = -5800.2206\<close>, \<open>C9 = 1.3914993\<close>, \<open>C10 = -0.048640239\<close>,
  \<open>C11 = 4.1764768e-5\<close>, \<open>C12 = -1.4452093e-8\<close>, \<open>C13 = 6.5459673\<close>.
\<close>

theorem pvs_formula:
  assumes "0 < t + 273.15"
  shows "pvs t = Inr (exp (- 5800.2206 / (t + 273.15) + 1.3914993
                           + - 0.048640239 * (t + 273.15)
                           + 4.1764768 / 10 ^ 5 * (t + 273.15) ^ 2
                           + - 1.4452093 / 10 ^ 8 * (t + 273.15) ^ 3
                           + 6.5459673 * ln (t + 273.15)))"
  using assms by (simp add: pvs_def Let_def)

text \<open>
  The formula at 20 degrees Celsius.
\<close>

theorem pvs_formula_witness:
  "(0::real) < 20 + 273.15 \<and>
   pvs 20 = Inr (exp (- 5800.2206 / (20 + 273.15) + 1.3914993
                           + - 0.048640239 * (20 + 273.15)
                           + 4.1764768 / 10 ^ 5 * (20 + 273.15) ^ 2
                           + - 1.4452093 / 10 ^ 8 * (20 + 273.15) ^ 3
                           + 6.5459673 * ln (20 + 273.15)))"
proof -
  have h: "(0::real) < 20 + 273.15" by simp
  show ?thesis using pvs_formula [OF h] h by blast
qed

section \<open>Specific volume: the formula\<close>

text \<open>
  Claim C4 as the specification states it, with \<open>R = 8314.462618153\<close>, fails for dry
  air at the freezing point and sea level: the code's constant has two more digits.
\<close>

theorem v_spec_counterexample:
  "p 0 = Inr 101325 \<and> v 0 0 (Some 0) \<noteq> Inr (v_spec 0 0 101325)"
  by (simp add: v_def p_sea_level v_spec_def R_def Mv_def Mda_def)

text \<open>
  Claim C4, amended. Where \<open>p(Z)\<close> is defined and not zero, \<open>v(t, w, Z)\<close> returns
  \<open>(R/Mv) * (Mv/Mda + w) * (t + 273.15) / p(Z)\<close> with \<open>R = 8314.46261815324\<close>; the
  result is a function of \<open>t\<close>, \<open>w\<close> and \<open>p(Z)\<close> alone, and a call without
  the altitude is the call with \<open>Z = 0\<close>.
\<close>

theorem v_formula:
  assumes "p Z = Inr q" and "q \<noteq> 0"
  shows "v t hr (Some Z)
           = Inr ((8314.46261815324 / 18.015286) * (18.015286 / 28.966 + hr) * (t + 273.15) / q)
         \<and> v t hr None = v t hr (Some 0)"
  using assms by (simp add: v_def R_def Mv_def Mda_def)

text \<open>
  The formula for dry air at 20 degrees Celsius and sea level.
\<close>

theorem v_formula_witness:
  "p 0 = Inr 101325 \<and> (101325::real) \<noteq> 0 \<and>
   v 20 0 (Some 0)
     = Inr ((8314.46261815324 / 18.015286) * (18.015286 / 28.966 + 0) * (20 + 273.15) / 101325)
   \<and> v 20 0 None = v 20 0 (Some 0)"
proof -
  have h: "(101325::real) \<noteq> 0" by simp
  show ?thesis using v_formula [OF p_sea_level h, of 20 0] p_sea_level h by blast
qed

section \<open>Slope of the saturation curve: the formula\<close>

text \<open>
  Claim C5. Where \<open>ts + b\<close> is not zero, \<open>p(Z)\<close> is defined and differs from
  \<open>es = C * exp(a*ts/(ts+b))\<close>, \<open>wsp(ts, Z)\<close> returns
  \<open>(Mv/Mda) * a * b * p(Z) * es / ((ts+b)^2 * (p(Z) - es)^2)\<close> with
  \<open>a = 17.2693882\<close>, \<open>b = 273.16 - 35.86\<close>, \<open>C = 610.78\<close>; the result is a
  function of \<open>ts\<close> and \<open>p(Z)\<close> alone, and a call without the altitude is the call
  with \<open>Z = 0\<close>.
\<close>

theorem wsp_formula:
  assumes "ts + (273.16 - 35.86) \<noteq> 0" and "p Z = Inr q"
    and "q \<noteq> 610.78 * exp (17.2693882 * ts / (ts + (273.16 - 35.86)))"
  shows "wsp ts (Some Z)
           = Inr ((18.015286 / 28.966) * 17.2693882 * (273.16 - 35.86) * q
                    * (610.78 * exp (17.2693882 * ts / (ts + (273.16 - 35.86))))
                  / ((ts + (273.16 - 35.86)) ^ 2
                       * (q - 610.78 * exp (17.2693882 * ts / (ts + (273.16 - 35.86)))) ^ 2))
         \<and> wsp ts None = wsp ts (Some 0)"
  using assms by (simp add: wsp_def Mv_def Mda_def Let_def)

text \<open>
  The formula at 20 degrees Celsius and sea level.
\<close>

theorem wsp_formula_witness:
  "(20::real) + (273.16 - 35.86) \<noteq> 0 \<and> p 0 = Inr 101325
   \<and> (101325::real) \<noteq> 610.78 * exp (17.2693882 * 20 / (20 + (273.16 - 35.86)))
   \<and> wsp 20 (Some 0)
           = Inr ((18.015286 / 28.966) * 17.2693882 * (273.16 - 35.86) * 101325
                    * (610.78 * exp (17.2693882 * 20 / (20 + (273.16 - 35.86))))
                  / ((20 + (273.16 - 35.86)) ^ 2
                       * (101325 - 610.78 * exp (17.2693882 * 20 / (20 + (273.16 - 35.86)))) ^ 2))
   \<and> wsp 20 None = wsp 20 (Some 0)"
proof -
  have h1: "(20::real) + (273.16 - 35.86) \<noteq> 0" by simp
  have "610.78 * exp (17.2693882 * 20 / (20 + 237.3)) < (101325::real)"
    by (rule es_bounds) simp_all
  then have h3: "101325 \<noteq> 610.78 * exp (17.2693882 * 20 / (20 + (273.16 - 35.86 :: real)))"
    by simp
  show ?thesis using wsp_formula [OF h1 p_sea_level h3] h1 p_sea_level h3 by blast
qed

section \<open>Atmospheric pressure: monotonicity\<close>

text \<open>
  Claim C6. On altitudes from -500 m to 10000 m the pressure \<open>p\<close> is defined and
  strictly decreasing, and \<open>p(0)\<close> is exactly 101325.
\<close>

theorem p_decreasing:
  assumes "- 500 \<le> Z1" and "Z1 < Z2" and "Z2 \<le> 10000"
  shows "(\<exists>q1 q2. p Z1 = Inr q1 \<and> p Z2 = Inr q2 \<and> q2 < q1) \<and> p 0 = Inr 101325"
proof -
  let ?b = "\<lambda>Z::real. 1 - 2.25577 / 10 ^ 5 * Z"
  have b2: "0 \<le> ?b Z2" using assms(3) by simp
  have lt: "?b Z2 < ?b Z1" using assms(2) by simp
  have b1: "0 \<le> ?b Z1" using b2 lt by linarith
  have "?b Z2 powr 5.2559 < ?b Z1 powr 5.2559"
    using b2 lt by (intro powr_less_mono2) simp_all
  then have "101325 * ?b Z2 powr 5.2559 < 101325 * ?b Z1 powr 5.2559"
    by simp
  moreover have "p Z1 = Inr (101325 * ?b Z1 powr 5.2559)"
    using b1 by (simp add: p_Inr_iff)
  moreover have "p Z2 = Inr (101325 * ?b Z2 powr 5.2559)"
    using b2 by (simp add: p_Inr_iff)
  ultimately show ?thesis
    using p_sea_level by blast
qed

text \<open>
  Sea level against 1000 m.
\<close>

theorem p_decreasing_witness:
  "(- 500 :: real) \<le> 0 \<and> (0::real) < 1000 \<and> (1000::real) \<le> 10000 \<and>
   (\<exists>q1 q2. p 0 = Inr q1 \<and> p 1000 = Inr q2 \<and> q2 < q1) \<and> p 0 = Inr 101325"
proof -
  have h1: "(- 500 :: real) \<le> 0" and h2: "(0::real) < 1000" and h3: "(1000::real) \<le> 10000"
    by simp_all
  show ?thesis using p_decreasing [OF h1 h2 h3] h1 h2 h3 by blast
qed

section \<open>Saturation vapor pressure: monotonicity\<close>




section \<open>Humidity ratio: monotonicity in the relative humidity\<close>

text \<open>
  Claim C8 as the specification states it, for every pair \<open>phi1 < phi2\<close>, fails at
  200 degrees Celsius and sea level: dry air has humidity ratio 0, saturated air a
  negative one, since the formula has a pole at \<open>phi * pvs(t) = p(Z)\<close>.
\<close>

theorem w_increasing_counterexample:
  "(0::real) < 1 \<and> w 200 0 (Some 0) = Inr 0
   \<and> \<not> isl (w 200 1 (Some 0)) \<and> projr (w 200 1 (Some 0)) < 0"
proof -
  obtain s where s: "pvs 200 = Inr s"
    using pvs_200 by blast
  have "w 200 0 (Some 0) = Inr 0"
    using w_Some [OF s p_sea_level, of 0] by simp
  then show ?thesis using w_200_saturated by simp
qed

text \<open>
  Claim C8, amended. For a temperature and an altitude where both pressures are
  defined, and every pair \<open>phi1 < phi2\<close> with \<open>phi2 * pvs(t) < p(Z)\<close>, the humidity
  ratio at \<open>phi1\<close> is at most the one at \<open>phi2\<close>.
\<close>

theorem w_increasing_below_pressure:
  assumes "pvs t = Inr s" and "p Z = Inr q" and "phi1 < phi2" and "phi2 * s < q"
  shows "\<exists>x1 x2. w t phi1 (Some Z) = Inr x1 \<and> w t phi2 (Some Z) = Inr x2 \<and> x1 \<le> x2"
proof -
  have s: "0 < s" using assms(1) by (rule pvs_pos)
  have q: "0 \<le> q" using assms(2) by (rule p_nonneg)
  have "phi1 * s < phi2 * s" using assms(3) s by simp
  then have d1: "0 < q - phi1 * s" and d2: "0 < q - phi2 * s"
    using assms(4) by simp_all
  have "phi1 * s * q \<le> phi2 * s * q"
    using \<open>phi1 * s < phi2 * s\<close> q by (simp add: mult_right_mono)
  then have "phi1 * s * (q - phi2 * s) \<le> phi2 * s * (q - phi1 * s)"
    by (simp add: algebra_simps)
  then have "phi1 * s / (q - phi1 * s) \<le> phi2 * s / (q - phi2 * s)"
    by (simp only: pos_divide_le_eq [OF d1] times_divide_eq_left pos_le_divide_eq [OF d2])
  then have "Mv / Mda * (phi1 * s / (q - phi1 * s)) \<le> Mv / Mda * (phi2 * s / (q - phi2 * s))"
    by (intro mult_left_mono) (simp_all add: Mv_def Mda_def)
  then have "Mv / Mda * phi1 * s / (q - phi1 * s) \<le> Mv / Mda * phi2 * s / (q - phi2 * s)"
    by (simp add: mult.assoc)
  moreover have "w t phi1 (Some Z) = Inr (Mv / Mda * phi1 * s / (q - phi1 * s))"
    using d1 by (intro w_Some [OF assms(1,2)]) simp
  moreover have "w t phi2 (Some Z) = Inr (Mv / Mda * phi2 * s / (q - phi2 * s))"
    using d2 by (intro w_Some [OF assms(1,2)]) simp
  ultimately show ?thesis by blast
qed

text \<open>
  Relative humidities 0.2 and 0.5 at 20 degrees Celsius, sea level.
\<close>

theorem w_increasing_below_pressure_witness:
  "\<exists>s. pvs 20 = Inr s \<and> p 0 = Inr 101325 \<and> (0.2::real) < 0.5 \<and> 0.5 * s < 101325
       \<and> (\<exists>x1 x2. w 20 0.2 (Some 0) = Inr x1 \<and> w 20 0.5 (Some 0) = Inr x2 \<and> x1 \<le> x2)"
proof -
  obtain s where s: "pvs 20 = Inr s" "s < 101325"
    using pvs_20 by blast
  have pos: "0 < s" using s(1) by (rule pvs_pos)
  have h3: "(0.2::real) < 0.5" by simp
  have h4: "0.5 * s < 101325" using s(2) pos by simp
  show ?thesis
    using w_increasing_below_pressure [OF s(1) p_sea_level h3 h4] s(1) p_sea_level h3 h4
    by blast
qed

section \<open>Slope of the saturation curve: sign\<close>

text \<open>
  Claim C9. For every saturation temperature between -10 and 50 degrees Celsius,
  \<open>wsp(ts, Z=0)\<close> is defined and strictly positive.
\<close>

theorem wsp_positive:
  assumes "- 10 \<le> ts" and "ts \<le> 50"
  shows "\<exists>x. wsp ts (Some 0) = Inr x \<and> 0 < x"
proof -
  let ?es = "610.78 * exp (17.2693882 * ts / (ts + 237.3))"
  have d: "0 < ts + 237.3" using assms(1) by simp
  have es: "0 < ?es" "?es < 101325" using assms by (rule es_bounds)+
  have den: "0 < (ts + 237.3) ^ 2 * (101325 - ?es) ^ 2"
    using d es(2) by (intro mult_pos_pos zero_less_power) simp_all
  have num: "0 < Mv / Mda * 17.2693882 * 237.3 * 101325 * ?es"
    using es(1) by (simp add: Mv_def Mda_def)
  have "wsp ts (Some 0)
          = Inr (Mv / Mda * 17.2693882 * 237.3 * 101325 * ?es
                 / ((ts + 237.3) ^ 2 * (101325 - ?es) ^ 2))"
    using d es(2) by (simp add: wsp_def p_sea_level Let_def)
  moreover have "0 < Mv / Mda * 17.2693882 * 237.3 * 101325 * ?es
                 / ((ts + 237.3) ^ 2 * (101325 - ?es) ^ 2)"
    using num den by (rule divide_pos_pos)
  ultimately show ?thesis by blast
qed

text \<open>
  The slope at 20 degrees Celsius.
\<close>

theorem wsp_positive_witness:
  "(- 10 :: real) \<le> 20 \<and> (20::real) \<le> 50 \<and> (\<exists>x. wsp 20 (Some 0) = Inr x \<and> 0 < x)"
proof -
  have h1: "(- 10 :: real) \<le> 20" and h2: "(20::real) \<le> 50" by simp_all
  show ?thesis using wsp_positive [OF h1 h2] h1 h2 by blast
qed

section \<open>Specific volume: monotonicity\<close>

text \<open>
  Claim C10 as the specification states it, a strict order, fails in binary64: at
  20 degrees Celsius and sea level the humidity ratios 0 and \<open>2^-70\<close> give the same
  specific volume, since \<open>Mv/Mda + w\<close> absorbs the small \<open>w\<close>.
\<close>

theorem v64_tie_counterexample:
  "(- 273.15 :: real) < 20 \<and> p64 0 = Inr 101325 \<and> (0::real) < 1 / 2 ^ 70
   \<and> \<not> isl (v64 20 0 (Some 0)) \<and> v64 20 0 (Some 0) = v64 20 (1 / 2 ^ 70) (Some 0)"
proof -
  have "v64 20 0 (Some 0) = v64 20 (1 / 2 ^ 70) (Some 0)"
    unfolding v64_def sum64_tie [symmetric] by (rule refl)
  moreover have "\<not> isl (v64 20 0 (Some 0))"
    by (simp add: v64_def p64_sea_level)
  ultimately show ?thesis using p64_sea_level by simp
qed

text \<open>
  Claim C10, amended. For a binary64 temperature above \<open>-273.15\<close> and an altitude of
  positive pressure, the specific volume computed in binary64 is non-decreasing in the
  humidity ratio: \<open>w1 < w2\<close> gives \<open>v(t, w1, Z) \<le> v(t, w2, Z)\<close>.
\<close>

theorem v64_nondecreasing:
  assumes "rnd t = t" and "- 273.15 < t" and "p64 Z = Inr q" and "0 < q" and "w1 < w2"
  shows "\<exists>v1 v2. v64 t w1 (Some Z) = Inr v1 \<and> v64 t w2 (Some Z) = Inr v2 \<and> v1 \<le> v2"
proof -
  let ?A = "rnd (R64 / Mv64)" and ?T = "rnd (t + rnd 273.15)"
  let ?S = "\<lambda>hr. rnd (rnd (Mv64 / Mda64) + hr)"
  have "0 \<le> R64" unfolding R64_def by (rule rnd_nonneg) simp
  moreover have "0 \<le> Mv64" using Mv64_bounds(1) by linarith
  ultimately have A: "0 \<le> ?A" by (intro rnd_nonneg divide_nonneg_nonneg)
  have T: "0 \<le> ?T" using T64_nonneg [OF assms(1,2)] by (rule rnd_nonneg)
  have "?S w1 \<le> ?S w2" using assms(5) by (intro rnd_mono) simp
  then have "?A * ?S w1 \<le> ?A * ?S w2" using A by (rule mult_left_mono)
  then have "rnd (?A * ?S w1) \<le> rnd (?A * ?S w2)" by (rule rnd_mono)
  then have "rnd (?A * ?S w1) * ?T \<le> rnd (?A * ?S w2) * ?T" using T by (rule mult_right_mono)
  then have "rnd (rnd (?A * ?S w1) * ?T) \<le> rnd (rnd (?A * ?S w2) * ?T)" by (rule rnd_mono)
  then have "rnd (rnd (?A * ?S w1) * ?T) / q \<le> rnd (rnd (?A * ?S w2) * ?T) / q"
    using assms(4) by (intro divide_right_mono) simp_all
  then have le: "rnd (rnd (rnd (?A * ?S w1) * ?T) / q) \<le> rnd (rnd (rnd (?A * ?S w2) * ?T) / q)"
    by (rule rnd_mono)
  have "v64 t w1 (Some Z) = Inr (rnd (rnd (rnd (?A * ?S w1) * ?T) / q))"
    using assms(3,4) by (simp add: v64_def)
  moreover have "v64 t w2 (Some Z) = Inr (rnd (rnd (rnd (?A * ?S w2) * ?T) / q))"
    using assms(3,4) by (simp add: v64_def)
  ultimately show ?thesis using le by blast
qed

text \<open>
  Dry air against a humidity ratio of 0.01 at 20 degrees Celsius, sea level.
\<close>

theorem v64_nondecreasing_witness:
  "rnd 20 = 20 \<and> (- 273.15 :: real) < 20 \<and> p64 0 = Inr 101325 \<and> (0::real) < 101325
   \<and> (0::real) < 0.01
   \<and> (\<exists>v1 v2. v64 20 0 (Some 0) = Inr v1 \<and> v64 20 0.01 (Some 0) = Inr v2 \<and> v1 \<le> v2)"
proof -
  have h1: "rnd 20 = 20" using rnd_of_int [of 20] by simp
  have h2: "(- 273.15 :: real) < 20" and h4: "(0::real) < 101325" and h5: "(0::real) < 0.01"
    by simp_all
  show ?thesis
    using v64_nondecreasing [OF h1 h2 p64_sea_level h4 h5] h1 h2 p64_sea_level h4 h5 by blast
qed

text \<open>
  In exact arithmetic, for a temperature above absolute zero and an altitude of positive
  pressure, the specific volume is strictly increasing in the humidity ratio.
\<close>

theorem v_increasing:
  assumes "- 273.15 < t" and "p Z = Inr q" and "0 < q" and "w1 < w2"
  shows "\<exists>v1 v2. v t w1 (Some Z) = Inr v1 \<and> v t w2 (Some Z) = Inr v2 \<and> v1 < v2"
proof -
  have T: "0 < t + 273.15" using assms(1) by simp
  have c: "0 < R / Mv" by (simp add: R_def Mv_def)
  have "Mv / Mda + w1 < Mv / Mda + w2" using assms(4) by simp
  then have "R / Mv * (Mv / Mda + w1) < R / Mv * (Mv / Mda + w2)"
    using c by (simp only: mult_less_cancel_left_pos)
  then have "R / Mv * (Mv / Mda + w1) * (t + 273.15) < R / Mv * (Mv / Mda + w2) * (t + 273.15)"
    using T by (simp only: mult_less_cancel_right_pos)
  then have "R / Mv * (Mv / Mda + w1) * (t + 273.15) / q
           < R / Mv * (Mv / Mda + w2) * (t + 273.15) / q"
    using assms(3) by (simp only: divide_strict_right_mono)
  moreover have "v t w1 (Some Z) = Inr (R / Mv * (Mv / Mda + w1) * (t + 273.15) / q)"
    using assms(2,3) by (simp add: v_def)
  moreover have "v t w2 (Some Z) = Inr (R / Mv * (Mv / Mda + w2) * (t + 273.15) / q)"
    using assms(2,3) by (simp add: v_def)
  ultimately show ?thesis by blast
qed

text \<open>
  Dry air against a humidity ratio of 0.01 at 20 degrees Celsius, sea level.
\<close>

theorem v_increasing_witness:
  "(- 273.15 :: real) < 20 \<and> p 0 = Inr 101325 \<and> (0::real) < 101325 \<and> (0::real) < 0.01 \<and>
   (\<exists>v1 v2. v 20 0 (Some 0) = Inr v1 \<and> v 20 0.01 (Some 0) = Inr v2 \<and> v1 < v2)"
proof -
  have h1: "(- 273.15 :: real) < 20" and h3: "(0::real) < 101325" and h4: "(0::real) < 0.01"
    by simp_all
  show ?thesis using v_increasing [OF h1 p_sea_level h3 h4] h1 p_sea_level h3 h4 by blast
qed

end
